theory Spec2Isabelle
  imports Main "HOL-Library.Multiset" "HOL-Library.Product_Lexorder"
begin

section \<open>JavaScript values used by the template generator\<close>

text \<open>
  The script computes with JavaScript numbers and strings. A number is modelled as an
  integer or one of the three special values; this is exact for the decimal integer
  tokens the timetable holds (magnitude below \<open>2 ^ 53\<close>). Numeric literals with a
  fraction, an exponent or a radix prefix are outside this integer model and read as
  \<open>NaN\<close> here. A string is a list of characters; only ASCII white space is trimmed.
\<close>

datatype jsnum = NaN | NegInf | PosInf | is_Fin: Fin (the_int: int)

datatype error = TypeError | Error string

text \<open>Truthiness of a number, as \<^verbatim>\<open>||\<close> and \<^verbatim>\<open>if\<close> test it.\<close>

definition truthy :: "jsnum \<Rightarrow> bool" where
  "truthy v = (v \<noteq> NaN \<and> v \<noteq> Fin 0)"

definition js_or :: "jsnum \<Rightarrow> jsnum \<Rightarrow> jsnum" where
  "js_or a b = (if truthy a then a else b)"

text \<open>The remainder operator \<^verbatim>\<open>%\<close>: the result takes the sign of the dividend.\<close>

fun js_rem :: "jsnum \<Rightarrow> jsnum \<Rightarrow> jsnum" where
  "js_rem (Fin a) (Fin b) = (if b = 0 then NaN else Fin (sgn a * (\<bar>a\<bar> mod \<bar>b\<bar>)))"
| "js_rem (Fin a) PosInf = Fin a"
| "js_rem (Fin a) NegInf = Fin a"
| "js_rem _ _ = NaN"

fun js_add :: "jsnum \<Rightarrow> jsnum \<Rightarrow> jsnum" where
  "js_add (Fin a) (Fin b) = Fin (a + b)"
| "js_add NaN _ = NaN"
| "js_add _ NaN = NaN"
| "js_add PosInf NegInf = NaN"
| "js_add NegInf PosInf = NaN"
| "js_add PosInf _ = PosInf"
| "js_add _ PosInf = PosInf"
| "js_add NegInf _ = NegInf"
| "js_add _ NegInf = NegInf"

fun js_neg :: "jsnum \<Rightarrow> jsnum" where
  "js_neg (Fin a) = Fin (- a)"
| "js_neg PosInf = NegInf"
| "js_neg NegInf = PosInf"
| "js_neg NaN = NaN"

definition js_sub :: "jsnum \<Rightarrow> jsnum \<Rightarrow> jsnum" where
  "js_sub a b = js_add a (js_neg b)"

text \<open>The comparison \<^verbatim>\<open><=\<close>; every comparison with \<open>NaN\<close> is false.\<close>

fun js_le :: "jsnum \<Rightarrow> jsnum \<Rightarrow> bool" where
  "js_le NaN _ = False"
| "js_le _ NaN = False"
| "js_le NegInf _ = True"
| "js_le _ PosInf = True"
| "js_le (Fin a) (Fin b) = (a \<le> b)"
| "js_le _ _ = False"

definition js_ge :: "jsnum \<Rightarrow> jsnum \<Rightarrow> bool" where
  "js_ge a b = js_le b a"

text \<open>\<^verbatim>\<open>Math.max(...xs)\<close>: \<open>-Infinity\<close> for no argument, \<open>NaN\<close> as soon as one argument is.\<close>

definition js_max2 :: "jsnum \<Rightarrow> jsnum \<Rightarrow> jsnum" where
  "js_max2 a b = (if a = NaN \<or> b = NaN then NaN else if js_le a b then b else a)"

definition Math_max :: "jsnum list \<Rightarrow> jsnum" where
  "Math_max xs = foldl js_max2 NegInf xs"

subsection \<open>Numbers to strings and back\<close>

definition digit_char :: "nat \<Rightarrow> char" where
  "digit_char d = ''0123456789'' ! (d mod 10)"

fun decimal :: "nat \<Rightarrow> string" where
  "decimal n = (if n < 10 then [digit_char n] else decimal (n div 10) @ [digit_char (n mod 10)])"

declare decimal.simps [simp del]

text \<open>The string a template literal inserts for a number.\<close>

fun ToString :: "jsnum \<Rightarrow> string" where
  "ToString (Fin i) = (if i < 0 then CHR ''-'' # decimal (nat (- i)) else decimal (nat i))"
| "ToString NaN = ''NaN''"
| "ToString PosInf = ''Infinity''"
| "ToString NegInf = ''-Infinity''"

definition is_space :: "char \<Rightarrow> bool" where
  "is_space c = (c \<in> set [CHR '' '', CHR 0x09, CHR 0x0A, CHR 0x0B, CHR 0x0C, CHR 0x0D])"

definition is_digit :: "char \<Rightarrow> bool" where
  "is_digit c = (c \<in> set ''0123456789'')"

definition trim :: "string \<Rightarrow> string" where
  "trim s = rev (dropWhile is_space (rev (dropWhile is_space s)))"

definition digit_val :: "char \<Rightarrow> nat" where
  "digit_val c = of_char c - 48"

definition decimal_value :: "string \<Rightarrow> nat" where
  "decimal_value s = foldl (\<lambda>a c. 10 * a + digit_val c) 0 s"

text \<open>
  \<^verbatim>\<open>Number(s)\<close>: white space is trimmed, the empty string is \<open>0\<close>, an optionally signed
  run of decimal digits is that integer, \<open>Infinity\<close> is read with its sign, and anything
  else is \<open>NaN\<close>.
\<close>

definition Number_js :: "string \<Rightarrow> jsnum" where
  "Number_js s =
     (let t = trim s in
      if t = [] then Fin 0
      else
        let neg = (hd t = CHR ''-'');
            body = (if hd t = CHR ''-'' \<or> hd t = CHR ''+'' then tl t else t)
        in if body = ''Infinity'' then (if neg then NegInf else PosInf)
           else if body \<noteq> [] \<and> list_all is_digit body
                then Fin ((if neg then - 1 else 1) * int (decimal_value body))
           else NaN)"

subsection \<open>String operations\<close>

text \<open>
  \<^verbatim>\<open>s.split(c)\<close> for a one-character separator: every occurrence of \<open>c\<close> ends a
  token, so two adjacent separators enclose an empty token and the result is never empty.
\<close>

fun split_js :: "char \<Rightarrow> string \<Rightarrow> string list" where
  "split_js c [] = [[]]"
| "split_js c (x # xs) =
     (if x = c then [] # split_js c xs
      else (case split_js c xs of w # ws \<Rightarrow> (x # w) # ws | [] \<Rightarrow> [[x]]))"

text \<open>Array destructuring and indexing past the end give \<^verbatim>\<open>undefined\<close>: \<open>None\<close>.\<close>

definition nth_opt :: "'a list \<Rightarrow> nat \<Rightarrow> 'a option" where
  "nth_opt xs i = (if i < length xs then Some (xs ! i) else None)"

definition endsWith :: "string \<Rightarrow> string \<Rightarrow> bool" where
  "endsWith s suf = (length suf \<le> length s \<and> drop (length s - length suf) s = suf)"

text \<open>\<^verbatim>\<open>xs.indexOf(x)\<close>: the first position of \<open>x\<close>, or \<open>-1\<close>.\<close>

fun indexOf :: "'a list \<Rightarrow> 'a \<Rightarrow> int" where
  "indexOf [] x = - 1"
| "indexOf (y # ys) x =
     (if y = x then 0 else (let r = indexOf ys x in if r < 0 then - 1 else r + 1))"

section \<open>Time formatter\<close>

text \<open>
  \<^verbatim>\<open>convertTo12HourFormat\<close> reads the hours before the first colon and renders the
  template literal \<^verbatim>\<open>`${hours % 12 || 12}${hours >= 12 ? 'pm' : 'am'}`\<close>; the literal
  is \<open>hourLabel\<close>.
\<close>

definition hourLabel :: "jsnum \<Rightarrow> string" where
  "hourLabel hours =
     ToString (js_or (js_rem hours (Fin 12)) (Fin 12)) @
     (if js_ge hours (Fin 12) then ''pm'' else ''am'')"

definition convertTo12HourFormat :: "string \<Rightarrow> string" where
  "convertTo12HourFormat time24 = hourLabel (Number_js (hd (split_js CHR '':'' time24)))"

definition parseHour :: "string \<Rightarrow> jsnum" where
  "parseHour time =
     (let hourStr = take (length time - 2) time;
          hour = Number_js hourStr
      in if (endsWith time ''pm'' \<and> hour \<noteq> Fin 12) \<or> (endsWith time ''am'' \<and> hour = Fin 12)
         then js_rem (js_add hour (Fin 12)) (Fin 24)
         else hour)"

section \<open>Schedule aggregator\<close>

text \<open>
  \<^verbatim>\<open>Combinations\<close> is an object from slot keys to the two counts. An object
  enumerates its string keys in the order of their first assignment, so it is an
  association list with distinct keys in that order. (Keys that are canonical array
  indices would be enumerated first; every key built below contains a space and is not
  one.)
\<close>

record slot =
  in_person :: jsnum
  online :: jsnum

type_synonym combinations = "(string \<times> slot) list"

definition obj_get :: "combinations \<Rightarrow> string \<Rightarrow> slot option" where
  "obj_get obj key = map_of obj key"

fun obj_set :: "combinations \<Rightarrow> string \<Rightarrow> slot \<Rightarrow> combinations" where
  "obj_set [] key v = [(key, v)]"
| "obj_set ((k, w) # rest) key v =
     (if k = key then (key, v) # rest else (k, w) # obj_set rest key v)"

text \<open>
  The key of one row: \<^verbatim>\<open>const [day, begin, , end] = classTimes[i].split(' ')\<close> and
  the template literal over the two converted times. A missing \<^verbatim>\<open>begin\<close> or
  \<^verbatim>\<open>end\<close> is \<^verbatim>\<open>undefined\<close>, and \<^verbatim>\<open>convertTo12HourFormat\<close> then
  raises a TypeError on \<^verbatim>\<open>time24.split\<close>.
\<close>

definition slotKey :: "string \<Rightarrow> error + string" where
  "slotKey classTime =
     (let tokens = split_js CHR '' '' classTime;
          day = hd tokens
      in case nth_opt tokens 1 of
           None \<Rightarrow> Inl TypeError
         | Some beginT \<Rightarrow>
             (case nth_opt tokens 3 of
                None \<Rightarrow> Inl TypeError
              | Some endT \<Rightarrow>
                  Inr (day @ '' '' @ convertTo12HourFormat beginT @ '' - '' @
                       convertTo12HourFormat endT)))"

definition emptyCounts :: slot where
  "emptyCounts = \<lparr>in_person = Fin 0, online = Fin 0\<rparr>"

text \<open>The body of the loop over \<open>i\<close>, for the rows read from the two columns.\<close>

definition loopBody :: "string list \<Rightarrow> string list \<Rightarrow> nat \<Rightarrow> combinations \<Rightarrow> error + combinations" where
  "loopBody classTimes classLocations i combinations =
     (let isOnline = (nth_opt classLocations i = Some ''Online (ONLINE)'')
      in case slotKey (classTimes ! i) of
           Inl e \<Rightarrow> Inl e
         | Inr key \<Rightarrow>
             (let cur = (case obj_get combinations key of Some v \<Rightarrow> v | None \<Rightarrow> emptyCounts);
                  inPersonCount = in_person cur;
                  onlineCount = online cur
              in Inr (obj_set combinations key
                   \<lparr>in_person = (if isOnline then inPersonCount else js_add inPersonCount (Fin 1)),
                    online = (if isOnline then js_add onlineCount (Fin 1) else onlineCount)\<rparr>)))"

fun forLoop :: "(nat \<Rightarrow> 's \<Rightarrow> error + 's) \<Rightarrow> nat list \<Rightarrow> 's \<Rightarrow> error + 's" where
  "forLoop body [] s = Inr s"
| "forLoop body (i # rest) s =
     (case body i s of Inl e \<Rightarrow> Inl e | Inr s' \<Rightarrow> forLoop body rest s')"

definition processRows :: "string list \<Rightarrow> string list \<Rightarrow> error + combinations" where
  "processRows classTimes classLocations =
     forLoop (loopBody classTimes classLocations) [0..<length classTimes] []"

text \<open>
  The host's worksheet: the text of each cell by column letter and row number, the data
  that \<^verbatim>\<open>updateWorksheet\<close> hands to the rendering calls, and the frozen rows. Cell
  styling is the host's business and is not modelled.
\<close>

record layout =
  classes :: "string list"
  types :: "string list"
  counts :: "jsnum list"
  maxInPerson :: jsnum
  maxOnline :: jsnum

record worksheet =
  cellText :: "string \<Rightarrow> nat \<Rightarrow> string"
  rendered :: "layout option"
  frozenRows :: nat

text \<open>
  \<^verbatim>\<open>getRange(`${col}${startRow}:${col}${endRow}`).getValues()\<close>, each value as a
  string: the cells of one column from \<open>startRow\<close> to \<open>endRow\<close>, for
  \<open>startRow \<le> endRow\<close> as \<^verbatim>\<open>main\<close> ensures.
\<close>

definition getColumnValues :: "worksheet \<Rightarrow> string \<Rightarrow> nat \<Rightarrow> nat \<Rightarrow> string list" where
  "getColumnValues sheet col startRow endRow = map (cellText sheet col) [startRow..<Suc endRow]"

definition processClassSchedules ::
    "worksheet \<Rightarrow> nat \<Rightarrow> nat \<Rightarrow> string \<Rightarrow> string \<Rightarrow> error + combinations" where
  "processClassSchedules timetable startRow endRow classTimesCol classLocationsCol =
     (let classTimes = getColumnValues timetable classTimesCol startRow endRow;
          classLocations = getColumnValues timetable classLocationsCol startRow endRow
      in processRows classTimes classLocations)"

section \<open>Slot orderer\<close>

definition weekdaysOrder :: "string list" where
  "weekdaysOrder = [''Mon'', ''Tue'', ''Wed'', ''Thu'', ''Fri'']"

text \<open>
  The comparator passed to \<^verbatim>\<open>sort\<close>. With equal days and a key without a second
  token, \<^verbatim>\<open>parseHour(undefined)\<close> raises a TypeError on \<^verbatim>\<open>time.slice\<close>.
\<close>

definition compareKeys :: "string \<Rightarrow> string \<Rightarrow> error + jsnum" where
  "compareKeys a b =
     (let tokensA = split_js CHR '' '' a;
          tokensB = split_js CHR '' '' b;
          dayA = hd tokensA;
          dayB = hd tokensB
      in if dayA \<noteq> dayB
         then Inr (Fin (indexOf weekdaysOrder dayA - indexOf weekdaysOrder dayB))
         else (case nth_opt tokensA 1 of
                 None \<Rightarrow> Inl TypeError
               | Some timeA \<Rightarrow>
                   (case nth_opt tokensB 1 of
                      None \<Rightarrow> Inl TypeError
                    | Some timeB \<Rightarrow> Inr (js_sub (parseHour timeA) (parseHour timeB)))))"

text \<open>
  \<^verbatim>\<open>Array.prototype.sort\<close> is stable and reads a comparator result \<open>NaN\<close> as \<open>0\<close>.
  The model is a stable insertion sort: an element goes before the first later element
  it does not compare greater than. For a comparator that is a consistent ordering every
  stable sort returns this list; for an inconsistent one the language leaves the order to
  the engine.
\<close>

definition notAfter :: "jsnum \<Rightarrow> bool" where
  "notAfter v = (v = NaN \<or> js_le v (Fin 0))"

fun insertBy :: "('a \<Rightarrow> 'a \<Rightarrow> error + jsnum) \<Rightarrow> 'a \<Rightarrow> 'a list \<Rightarrow> error + 'a list" where
  "insertBy cmp x [] = Inr [x]"
| "insertBy cmp x (y # ys) =
     (case cmp x y of
        Inl e \<Rightarrow> Inl e
      | Inr v \<Rightarrow>
          if notAfter v then Inr (x # y # ys)
          else (case insertBy cmp x ys of Inl e \<Rightarrow> Inl e | Inr zs \<Rightarrow> Inr (y # zs)))"

fun array_sort :: "('a \<Rightarrow> 'a \<Rightarrow> error + jsnum) \<Rightarrow> 'a list \<Rightarrow> error + 'a list" where
  "array_sort cmp [] = Inr []"
| "array_sort cmp (x # xs) =
     (case array_sort cmp xs of Inl e \<Rightarrow> Inl e | Inr ys \<Rightarrow> insertBy cmp x ys)"

definition orderCombinations :: "combinations \<Rightarrow> error + combinations" where
  "orderCombinations combinations =
     (case array_sort compareKeys (map fst combinations) of
        Inl e \<Rightarrow> Inl e
      | Inr keys \<Rightarrow>
          Inr (foldl (\<lambda>orderedCombinations key.
                 case obj_get combinations key of
                   Some v \<Rightarrow> obj_set orderedCombinations key v
                 | None \<Rightarrow> orderedCombinations) [] keys))"

section \<open>Grid sizer and worksheet update\<close>

definition maxValues :: "combinations \<Rightarrow> jsnum \<times> jsnum" where
  "maxValues schedule =
     (let inPersonValues = map (\<lambda>(key, s). in_person s) schedule;
          onlineValues = map (\<lambda>(key, s). online s) schedule
      in (Math_max inPersonValues, Math_max onlineValues))"

text \<open>The loop of \<^verbatim>\<open>updateWorksheet\<close> that pushes onto the three arrays.\<close>

definition pushEntry ::
    "string list \<times> string list \<times> jsnum list \<Rightarrow> string \<times> slot \<Rightarrow> string list \<times> string list \<times> jsnum list" where
  "pushEntry arrays entry =
     (case arrays of (cs, ts, ns) \<Rightarrow>
      case entry of (key, v) \<Rightarrow>
        (let (cs1, ts1, ns1) =
               (if truthy (in_person v)
                then (cs @ [key], ts @ [''In-person''], ns @ [in_person v])
                else (cs, ts, ns))
         in if truthy (online v)
            then (cs1 @ [key], ts1 @ [''Online''], ns1 @ [online v])
            else (cs1, ts1, ns1)))"

definition collectArrays :: "combinations \<Rightarrow> string list \<times> string list \<times> jsnum list" where
  "collectArrays schedule = foldl pushEntry ([], [], []) schedule"

definition updateWorksheet :: "worksheet \<Rightarrow> combinations \<Rightarrow> error + worksheet" where
  "updateWorksheet sheet schedule =
     (case collectArrays schedule of (cs, ts, ns) \<Rightarrow>
        if length cs \<noteq> length ts \<or> length cs \<noteq> length ns \<or> length ts \<noteq> length ns
        then Inl (Error ''Something went wrong!'')
        else Inr (sheet\<lparr>rendered :=
               Some \<lparr>classes = cs, types = ts, counts = ns,
                     maxInPerson = fst (maxValues schedule),
                     maxOnline = snd (maxValues schedule)\<rparr>\<rparr>))"

section \<open>Entry point\<close>

datatype course = COMP3900 | COMP9900

fun courseName :: "course \<Rightarrow> string" where
  "courseName COMP3900 = ''COMP3900''"
| "courseName COMP9900 = ''COMP9900''"

type_synonym workbook = "string \<rightharpoonup> worksheet"

definition newWorksheet :: worksheet where
  "newWorksheet = \<lparr>cellText = (\<lambda>col row. []), rendered = None, frozenRows = 0\<rparr>"

text \<open>
  \<^verbatim>\<open>main\<close> returns the workbook as the run leaves it and the error that ended the
  run, if any: an exception raised after \<^verbatim>\<open>addWorksheet\<close> leaves the new sheet behind.
\<close>

definition main :: "workbook \<Rightarrow> course \<Rightarrow> nat \<Rightarrow> nat \<Rightarrow> string \<Rightarrow> string \<Rightarrow> workbook \<times> error option" where
  "main workbook course startRow endRow classTimesCol classLocationsCol =
     (case workbook ''TT'' of
        None \<Rightarrow> (workbook, Some (Error ''Timetable not found''))
      | Some timetable \<Rightarrow>
          if startRow > endRow
          then (workbook, Some (Error ''Start row cannot be after End row''))
          else if workbook (courseName course) \<noteq> None
          then (workbook, Some (Error (''Sheet '' @ courseName course @ '' already exists'')))
          else
            (let created = workbook(courseName course \<mapsto> newWorksheet)
             in case processClassSchedules timetable startRow endRow classTimesCol classLocationsCol of
                  Inl e \<Rightarrow> (created, Some e)
                | Inr schedule \<Rightarrow>
                    (case orderCombinations schedule of
                       Inl e \<Rightarrow> (created, Some e)
                     | Inr ordered \<Rightarrow>
                         (case updateWorksheet newWorksheet ordered of
                            Inl e \<Rightarrow> (created, Some e)
                          | Inr sheet \<Rightarrow>
                              (workbook(courseName course \<mapsto> sheet\<lparr>frozenRows := 8\<rparr>), None)))))"

section \<open>Notions used to state the properties\<close>

text \<open>
  The rows the aggregation loop visits: the time description at each index with the
  location at the same index, \<open>None\<close> where the location sequence is shorter.
\<close>

definition rowsOf :: "string list \<Rightarrow> string list \<Rightarrow> (string \<times> string option) list" where
  "rowsOf classTimes classLocations =
     map (\<lambda>i. (classTimes ! i, nth_opt classLocations i)) [0..<length classTimes]"

definition isOnlineLoc :: "string option \<Rightarrow> bool" where
  "isOnlineLoc location = (location = Some ''Online (ONLINE)'')"

text \<open>The assignment at the end of the loop body, for a row whose key is known.\<close>

definition tally :: "bool \<Rightarrow> string \<Rightarrow> combinations \<Rightarrow> combinations" where
  "tally isOnline key combinations =
     (let cur = (case obj_get combinations key of Some v \<Rightarrow> v | None \<Rightarrow> emptyCounts)
      in obj_set combinations key
           \<lparr>in_person = (if isOnline then in_person cur else js_add (in_person cur) (Fin 1)),
            online = (if isOnline then js_add (online cur) (Fin 1) else online cur)\<rparr>)"

text \<open>The loop over a list of rows, and the number of rows with a given key and mode.\<close>

fun runRows :: "(string \<times> string option) list \<Rightarrow> combinations \<Rightarrow> error + combinations" where
  "runRows [] combinations = Inr combinations"
| "runRows ((classTime, location) # rest) combinations =
     (case slotKey classTime of
        Inl e \<Rightarrow> Inl e
      | Inr key \<Rightarrow> runRows rest (tally (isOnlineLoc location) key combinations))"

definition rowCount :: "string \<Rightarrow> bool \<Rightarrow> (string \<times> string option) list \<Rightarrow> int" where
  "rowCount key isOnline rows =
     int (length (filter (\<lambda>(classTime, location).
            slotKey classTime = Inr key \<and> isOnlineLoc location = isOnline) rows))"

text \<open>
  The sort key of a slot key whose weekday is one of the five and whose start label
  parses to an integer hour: the weekday's position and that hour.
\<close>

definition weekdayOf :: "string \<Rightarrow> string" where
  "weekdayOf key = hd (split_js CHR '' '' key)"

definition startHour :: "string \<Rightarrow> jsnum" where
  "startHour key = parseHour (split_js CHR '' '' key ! 1)"

definition hasStart :: "string \<Rightarrow> bool" where
  "hasStart key = (2 \<le> length (split_js CHR '' '' key))"

definition orderable :: "string \<Rightarrow> bool" where
  "orderable key = (hasStart key \<and> weekdayOf key \<in> set weekdaysOrder \<and> is_Fin (startHour key))"

definition rank :: "string \<Rightarrow> int \<times> int" where
  "rank key = (indexOf weekdaysOrder (weekdayOf key), the_int (startHour key))"


section \<open>Properties\<close>

lemma split_js_nonempty: "split_js c s \<noteq> []"
  by (induction s) (auto split: list.splits)

lemma hourLabel_table:
  "map (\<lambda>h. hourLabel (Fin h)) [0..23] =
     [''12am'', ''1am'', ''2am'', ''3am'', ''4am'', ''5am'', ''6am'', ''7am'', ''8am'', ''9am'',
      ''10am'', ''11am'', ''12pm'', ''1pm'', ''2pm'', ''3pm'', ''4pm'', ''5pm'', ''6pm'', ''7pm'',
      ''8pm'', ''9pm'', ''10pm'', ''11pm'']"
  by code_simp

lemma parseHour_hourLabel_all:
  "list_all (\<lambda>h. parseHour (hourLabel (Fin h)) = Fin h) [0..23]"
  by code_simp

lemma convert_hourLabel_all:
  "list_all (\<lambda>h. convertTo12HourFormat (ToString (Fin h) @ '':00'') = hourLabel (Fin h)) [0..23]"
  by code_simp

subsection \<open>Time formatter\<close>

text \<open>
  C1: for every integer \<open>h\<close> with \<open>0 \<le> h \<le> 23\<close>, parsing the 12-hour label produced
  for \<open>h\<close> returns \<open>h\<close> again, so formatting the parsed label gives the label back: the
  two conversions are mutual inverses between the hours 0..23 and their labels. The same
  holds when the label is produced from the time string \<open>h:00\<close>, as the aggregator does.
\<close>

theorem time_labels_roundtrip:
  assumes "0 \<le> h" and "h \<le> 23"
  shows "parseHour (hourLabel (Fin h)) = Fin h \<and>
         hourLabel (parseHour (hourLabel (Fin h))) = hourLabel (Fin h) \<and>
         parseHour (convertTo12HourFormat (ToString (Fin h) @ '':00'')) = Fin h"
proof -
  from assms have mem: "h \<in> set [0..23]" by simp
  have a: "parseHour (hourLabel (Fin h)) = Fin h"
    using parseHour_hourLabel_all mem unfolding list_all_iff by blast
  have b: "convertTo12HourFormat (ToString (Fin h) @ '':00'') = hourLabel (Fin h)"
    using convert_hourLabel_all mem unfolding list_all_iff by blast
  show ?thesis using a b by simp
qed

theorem time_labels_roundtrip_witness:
  "hourLabel (Fin 14) = ''2pm'' \<and> parseHour ''2pm'' = Fin 14 \<and>
   hourLabel (parseHour ''2pm'') = ''2pm''"
proof -
  have l: "hourLabel (Fin 14) = ''2pm''" by code_simp
  show ?thesis using time_labels_roundtrip [of 14] l by simp
qed

subsection \<open>Grid sizer\<close>

lemma js_max2_Fin: "js_max2 (Fin a) (Fin b) = Fin (max a b)"
  by (simp add: js_max2_def max_def)

lemma foldl_js_max2_Fin:
  "foldl js_max2 (Fin a) (map Fin xs) = Fin (Max (insert a (set xs)))"
proof (induction xs arbitrary: a)
  case Nil
  then show ?case by simp
next
  case (Cons x xs)
  have "Max (insert (max a x) (set xs)) = Max (insert a (insert x (set xs)))"
    by (cases "set xs = {}") (simp_all add: max.assoc)
  with Cons show ?case by (simp add: js_max2_Fin)
qed

lemma Math_max_Fin:
  assumes "xs \<noteq> []"
  shows "Math_max (map Fin xs) = Fin (Max (set xs))"
proof -
  from assms obtain x rest where xs: "xs = x # rest" by (cases xs) auto
  have "js_max2 NegInf (Fin x) = Fin x" by (simp add: js_max2_def)
  then show ?thesis
    unfolding Math_max_def xs by (simp add: foldl_js_max2_Fin)
qed

text \<open>
  C3 (as amended): for every schedule with at least one slot and integer counts,
  \<open>maxValues\<close> returns the maximum in-person count and the maximum online count across
  all slots; for the schedule with no slots both results are \<open>-Infinity\<close>, the value of
  \<^verbatim>\<open>Math.max()\<close> without arguments; and for exactly two slots with counts
  \<open>{inPerson: 3, online: 1}\<close> and \<open>{inPerson: 1, online: 2}\<close> it returns 3 and 2.
\<close>

theorem maxValues_maximum:
  "(schedule \<noteq> [] \<and> list_all (\<lambda>(key, s). is_Fin (in_person s) \<and> is_Fin (online s)) schedule \<longrightarrow>
      maxValues schedule =
        (Fin (Max (set (map (\<lambda>(key, s). the_int (in_person s)) schedule))),
         Fin (Max (set (map (\<lambda>(key, s). the_int (online s)) schedule))))) \<and>
   maxValues [] = (NegInf, NegInf) \<and>
   maxValues [(k1, \<lparr>in_person = Fin 3, online = Fin 1\<rparr>),
              (k2, \<lparr>in_person = Fin 1, online = Fin 2\<rparr>)] = (Fin 3, Fin 2)"
proof (intro conjI impI)
  assume a: "schedule \<noteq> [] \<and> list_all (\<lambda>(key, s). is_Fin (in_person s) \<and> is_Fin (online s)) schedule"
  then have ne: "schedule \<noteq> []" by simp
  from a have i: "map (\<lambda>(key, s). in_person s) schedule =
      map Fin (map (\<lambda>(key, s). the_int (in_person s)) schedule)"
    by (auto simp: list_all_iff)
  from a have o: "map (\<lambda>(key, s). online s) schedule =
      map Fin (map (\<lambda>(key, s). the_int (online s)) schedule)"
    by (auto simp: list_all_iff)
  from ne have ne1: "map (\<lambda>(key, s). the_int (in_person s)) schedule \<noteq> []"
    and ne2: "map (\<lambda>(key, s). the_int (online s)) schedule \<noteq> []" by simp_all
  show "maxValues schedule =
        (Fin (Max (set (map (\<lambda>(key, s). the_int (in_person s)) schedule))),
         Fin (Max (set (map (\<lambda>(key, s). the_int (online s)) schedule))))"
    unfolding maxValues_def Let_def i o
    using Math_max_Fin [OF ne1] Math_max_Fin [OF ne2] by simp
next
  show "maxValues [] = (NegInf, NegInf)"
    by (simp add: maxValues_def Math_max_def)
next
  show "maxValues [(k1, \<lparr>in_person = Fin 3, online = Fin 1\<rparr>),
              (k2, \<lparr>in_person = Fin 1, online = Fin 2\<rparr>)] = (Fin 3, Fin 2)"
    by (simp add: maxValues_def Math_max_def js_max2_def)
qed

theorem maxValues_maximum_witness:
  "maxValues [(''Mon 9am - 11am'', \<lparr>in_person = Fin 2, online = Fin 0\<rparr>),
              (''Tue 1pm - 3pm'', \<lparr>in_person = Fin 1, online = Fin 4\<rparr>),
              (''Fri 10am - 12pm'', \<lparr>in_person = Fin 5, online = Fin 1\<rparr>)] = (Fin 5, Fin 4)"
  using maxValues_maximum [of "[(''Mon 9am - 11am'', \<lparr>in_person = Fin 2, online = Fin 0\<rparr>),
              (''Tue 1pm - 3pm'', \<lparr>in_person = Fin 1, online = Fin 4\<rparr>),
              (''Fri 10am - 12pm'', \<lparr>in_person = Fin 5, online = Fin 1\<rparr>)]"]
  by simp

text \<open>
  C3 as stated fails on the empty schedule: the two results are not 0 there.
\<close>

theorem maxValues_empty_counterexample:
  "maxValues [] = (NegInf, NegInf) \<and> fst (maxValues []) \<noteq> Fin 0 \<and> snd (maxValues []) \<noteq> Fin 0"
  by (simp add: maxValues_def Math_max_def)

subsection \<open>Worksheet update\<close>

lemma pushEntry_lengths:
  assumes "pushEntry (cs, ts, ns) entry = (cs', ts', ns')"
    and "length cs = length ts" and "length ts = length ns"
  shows "length cs' = length ts' \<and> length ts' = length ns'"
  using assms by (cases entry) (auto simp: pushEntry_def split: if_splits)

lemma foldl_pushEntry_lengths:
  assumes "foldl pushEntry (cs, ts, ns) schedule = (cs', ts', ns')"
    and "length cs = length ts" and "length ts = length ns"
  shows "length cs' = length ts' \<and> length ts' = length ns'"
  using assms
proof (induction schedule arbitrary: cs ts ns)
  case Nil
  then show ?case by simp
next
  case (Cons entry rest)
  obtain cs1 ts1 ns1 where step: "pushEntry (cs, ts, ns) entry = (cs1, ts1, ns1)"
    by (cases "pushEntry (cs, ts, ns) entry") auto
  from pushEntry_lengths [OF step Cons.prems(2,3)]
  have "length cs1 = length ts1" and "length ts1 = length ns1" by simp_all
  moreover from Cons.prems(1) step
  have "foldl pushEntry (cs1, ts1, ns1) rest = (cs', ts', ns')" by simp
  ultimately show ?case using Cons.IH by blast
qed

text \<open>
  C9: for every input schedule, the three arrays \<open>classes\<close>, \<open>types\<close> and \<open>counts\<close> that
  \<open>updateWorksheet\<close> builds from the schedule entries have equal length, so the
  length-mismatch error \<open>Something went wrong!\<close> is never raised and the update goes
  through.
\<close>

theorem arrays_equal_length:
  "(case collectArrays schedule of
      (cs, ts, ns) \<Rightarrow> length cs = length ts \<and> length cs = length ns \<and> length ts = length ns) \<and>
   updateWorksheet sheet schedule \<noteq> Inl (Error ''Something went wrong!'') \<and>
   (\<exists>sheet'. updateWorksheet sheet schedule = Inr sheet')"
proof -
  obtain cs ts ns where c: "collectArrays schedule = (cs, ts, ns)"
    by (cases "collectArrays schedule") auto
  then have "foldl pushEntry ([], [], []) schedule = (cs, ts, ns)"
    by (simp add: collectArrays_def)
  from foldl_pushEntry_lengths [OF this]
  have l: "length cs = length ts" "length ts = length ns" by simp_all
  show ?thesis using c l by (simp add: updateWorksheet_def)
qed

theorem arrays_equal_length_witness:
  "collectArrays [(''Mon 9am - 11am'', \<lparr>in_person = Fin 2, online = Fin 1\<rparr>),
                  (''Tue 1pm - 3pm'', \<lparr>in_person = Fin 0, online = Fin 3\<rparr>)] =
     ([''Mon 9am - 11am'', ''Mon 9am - 11am'', ''Tue 1pm - 3pm''],
      [''In-person'', ''Online'', ''Online''],
      [Fin 2, Fin 1, Fin 3]) \<and>
   updateWorksheet newWorksheet
     [(''Mon 9am - 11am'', \<lparr>in_person = Fin 2, online = Fin 1\<rparr>),
      (''Tue 1pm - 3pm'', \<lparr>in_person = Fin 0, online = Fin 3\<rparr>)] \<noteq>
     Inl (Error ''Something went wrong!'')"
proof -
  have "collectArrays [(''Mon 9am - 11am'', \<lparr>in_person = Fin 2, online = Fin 1\<rparr>),
                  (''Tue 1pm - 3pm'', \<lparr>in_person = Fin 0, online = Fin 3\<rparr>)] =
     ([''Mon 9am - 11am'', ''Mon 9am - 11am'', ''Tue 1pm - 3pm''],
      [''In-person'', ''Online'', ''Online''],
      [Fin 2, Fin 1, Fin 3])"
    by (simp add: collectArrays_def pushEntry_def truthy_def)
  then show ?thesis
    using arrays_equal_length [of "[(''Mon 9am - 11am'', \<lparr>in_person = Fin 2, online = Fin 1\<rparr>),
                  (''Tue 1pm - 3pm'', \<lparr>in_person = Fin 0, online = Fin 3\<rparr>)]" newWorksheet]
    by simp
qed

subsection \<open>Entry point\<close>

text \<open>When none of the three checks fires, the run does create the destination worksheet.\<close>

lemma main_creates_destination:
  assumes "workbook ''TT'' \<noteq> None" and "startRow \<le> endRow" and "workbook (courseName course) = None"
  shows "fst (main workbook course startRow endRow classTimesCol classLocationsCol) (courseName course) \<noteq> None"
  using assms by (auto simp: main_def Let_def split: option.splits sum.splits)

text \<open>
  C8: \<open>main\<close> raises a fatal error when the source worksheet \<open>TT\<close> does not exist, when
  \<open>startRow > endRow\<close>, or when a worksheet with the destination name already exists, and
  in each of the three cases the workbook is left exactly as it was: the run aborts before
  the destination worksheet is created or written.
\<close>

theorem main_guards:
  assumes "workbook ''TT'' = None \<or> startRow > endRow \<or> workbook (courseName course) \<noteq> None"
  shows "main workbook course startRow endRow classTimesCol classLocationsCol =
           (workbook,
            Some (Error (if workbook ''TT'' = None then ''Timetable not found''
                         else if startRow > endRow then ''Start row cannot be after End row''
                         else ''Sheet '' @ courseName course @ '' already exists'')))"
  using assms by (auto simp: main_def split: option.splits)

theorem main_guards_witness:
  "main Map.empty COMP3900 31 50 ''A'' ''B'' = (Map.empty, Some (Error ''Timetable not found'')) \<and>
   main [''TT'' \<mapsto> newWorksheet] COMP3900 50 31 ''A'' ''B'' =
     ([''TT'' \<mapsto> newWorksheet], Some (Error ''Start row cannot be after End row'')) \<and>
   main [''TT'' \<mapsto> newWorksheet, ''COMP9900'' \<mapsto> newWorksheet] COMP9900 31 50 ''A'' ''B'' =
     ([''TT'' \<mapsto> newWorksheet, ''COMP9900'' \<mapsto> newWorksheet],
      Some (Error ''Sheet COMP9900 already exists''))"
  using main_guards [where workbook = Map.empty and startRow = 31 and endRow = 50
        and course = COMP3900 and classTimesCol = "''A''" and classLocationsCol = "''B''"]
    main_guards [where workbook = "[''TT'' \<mapsto> newWorksheet]" and startRow = 50 and endRow = 31
        and course = COMP3900 and classTimesCol = "''A''" and classLocationsCol = "''B''"]
    main_guards [where workbook = "[''TT'' \<mapsto> newWorksheet, ''COMP9900'' \<mapsto> newWorksheet]"
        and startRow = 31 and endRow = 50
        and course = COMP9900 and classTimesCol = "''A''" and classLocationsCol = "''B''"]
  by simp

subsection \<open>Schedule aggregator\<close>

lemma nth_opt_Cons_0: "nth_opt (x # xs) 0 = Some x"
  by (simp add: nth_opt_def)

lemma nth_opt_Cons_Suc: "nth_opt (x # xs) (Suc n) = nth_opt xs n"
  by (simp add: nth_opt_def)

lemma nth_opt_Nil: "nth_opt [] n = None"
  by (simp add: nth_opt_def)





text \<open>
  The loop is a fold of \<open>tally\<close> over the rows, unless some time description has fewer
  than four tokens; the counts it leaves are the numbers of rows per key and mode.
\<close>

lemma slotKey_cases:
  "slotKey t = (if 4 \<le> length (split_js CHR '' '' t)
     then Inr (hd (split_js CHR '' '' t) @ '' '' @ convertTo12HourFormat (split_js CHR '' '' t ! 1) @
               '' - '' @ convertTo12HourFormat (split_js CHR '' '' t ! 3))
     else Inl TypeError)"
  by (auto simp: slotKey_def Let_def nth_opt_def)

lemma slotKey_Inl: "slotKey t = Inl e \<Longrightarrow> e = TypeError"
  by (auto simp: slotKey_cases split: if_splits)

lemma loopBody_tally:
  "loopBody ts ls i c =
     (case slotKey (ts ! i) of
        Inl e \<Rightarrow> Inl e
      | Inr key \<Rightarrow> Inr (tally (isOnlineLoc (nth_opt ls i)) key c))"
  by (simp add: loopBody_def tally_def isOnlineLoc_def Let_def split: sum.splits)

lemma forLoop_runRows:
  "forLoop (loopBody ts ls) ixs c = runRows (map (\<lambda>i. (ts ! i, nth_opt ls i)) ixs) c"
  by (induction ixs arbitrary: c) (auto simp: loopBody_tally split: sum.splits)

lemma processRows_runRows: "processRows ts ls = runRows (rowsOf ts ls) []"
  by (simp add: processRows_def rowsOf_def forLoop_runRows)

lemma runRows_foldl:
  "runRows rs c =
     (if list_all (\<lambda>(t, l). \<not> isl (slotKey t)) rs
      then Inr (foldl (\<lambda>c (t, l). tally (isOnlineLoc l) (projr (slotKey t)) c) c rs)
      else Inl TypeError)"
proof (induction rs arbitrary: c)
  case Nil
  then show ?case by simp
next
  case (Cons r rs)
  obtain t l where r: "r = (t, l)" by (cases r)
  show ?case
  proof (cases "slotKey t")
    case (Inl e)
    then have "e = TypeError" by (rule slotKey_Inl)
    with Inl r show ?thesis by simp
  next
    case (Inr key)
    with r Cons.IH show ?thesis by simp
  qed
qed

lemma fst_obj_set: "fst ` set (obj_set c k v) = insert k (fst ` set c)"
  by (induction c k v rule: obj_set.induct) auto

lemma distinct_obj_set: "distinct (map fst c) \<Longrightarrow> distinct (map fst (obj_set c k v))"
proof (induction c k v rule: obj_set.induct)
  case (1 key v)
  then show ?case by simp
next
  case (2 k w rest key v)
  then show ?case using fst_obj_set [of rest key v] by (auto simp: image_iff)
qed

lemma map_of_obj_set: "map_of (obj_set c k v) = (map_of c)(k \<mapsto> v)"
  by (induction c k v rule: obj_set.induct) (auto simp: fun_upd_twist)

lemma distinct_tally: "distinct (map fst c) \<Longrightarrow> distinct (map fst (tally b k c))"
  by (simp add: tally_def Let_def distinct_obj_set)

lemma distinct_foldl_tally:
  "distinct (map fst c) \<Longrightarrow>
   distinct (map fst (foldl (\<lambda>c (t, l). tally (isOnlineLoc l) (projr (slotKey t)) c) c rs))"
  by (induction rs arbitrary: c) (auto simp: distinct_tally split: prod.splits)

lemma rowCount_Nil: "rowCount key b [] = 0"
  by (simp add: rowCount_def)

lemma rowCount_snoc:
  "rowCount key b (rs @ [(t, l)]) =
     rowCount key b rs + (if slotKey t = Inr key \<and> isOnlineLoc l = b then 1 else 0)"
  by (simp add: rowCount_def)

lemma foldl_tally_counts:
  assumes "list_all (\<lambda>(t, l). \<not> isl (slotKey t)) rs"
  shows "map_of (foldl (\<lambda>c (t, l). tally (isOnlineLoc l) (projr (slotKey t)) c) [] rs) key =
     (if \<exists>(t, l) \<in> set rs. slotKey t = Inr key
      then Some \<lparr>in_person = Fin (rowCount key False rs), online = Fin (rowCount key True rs)\<rparr>
      else None)"
  using assms
proof (induction rs arbitrary: key rule: rev_induct)
  case Nil
  then show ?case by simp
next
  case (snoc r rs)
  obtain t l where r: "r = (t, l)" by (cases r)
  from snoc.prems r obtain k where k: "slotKey t = Inr k" and rest: "list_all (\<lambda>(t, l). \<not> isl (slotKey t)) rs"
    by (cases "slotKey t") auto
  let ?c = "foldl (\<lambda>c (t, l). tally (isOnlineLoc l) (projr (slotKey t)) c) [] rs"
  have ih: "map_of ?c key' =
     (if \<exists>(t, l) \<in> set rs. slotKey t = Inr key'
      then Some \<lparr>in_person = Fin (rowCount key' False rs), online = Fin (rowCount key' True rs)\<rparr>
      else None)" for key'
    using snoc.IH [OF rest] .
  have none0: "\<not> (\<exists>(t, l) \<in> set rs. slotKey t = Inr k) \<Longrightarrow> rowCount k b rs = 0" for b
    by (auto simp: rowCount_def filter_empty_conv)
  have cur: "(case obj_get ?c k of Some v \<Rightarrow> v | None \<Rightarrow> emptyCounts) =
      \<lparr>in_person = Fin (rowCount k False rs), online = Fin (rowCount k True rs)\<rparr>"
    using ih [of k] none0 by (auto simp: obj_get_def emptyCounts_def)
  have step: "foldl (\<lambda>c (t, l). tally (isOnlineLoc l) (projr (slotKey t)) c) [] (rs @ [r]) =
      tally (isOnlineLoc l) k ?c"
    using r k by simp
  show ?case
  proof (cases "key = k")
    case True
    show ?thesis
      unfolding step using True k r cur
      by (auto simp: tally_def Let_def map_of_obj_set rowCount_snoc)
  next
    case False
    show ?thesis
      unfolding step using False k r ih [of key]
      by (auto simp: tally_def Let_def map_of_obj_set rowCount_snoc)
  qed
qed

lemma wellFormed_runs:
  assumes "\<forall>t\<in>set ts. 4 \<le> length (split_js CHR '' '' t)"
  shows "list_all (\<lambda>(t, l). \<not> isl (slotKey t)) (rowsOf ts ls)"
  using assms by (auto simp: list_all_iff rowsOf_def slotKey_cases)

lemma rowsOf_zip:
  assumes "length ts = length ls"
  shows "rowsOf ts ls = map (\<lambda>(t, l). (t, Some l)) (zip ts ls)"
  using assms by (intro nth_equalityI) (auto simp: rowsOf_def nth_opt_def)

lemma rowCount_zip:
  "rowCount key b (map (\<lambda>(t, l). (t, Some l)) zs) =
     int (length (filter (\<lambda>(t, l). slotKey t = Inr key \<and> ((l = ''Online (ONLINE)'') = b)) zs))"
  by (simp add: rowCount_def filter_map comp_def split_def isOnlineLoc_def)

lemma slotKey_examples:
  "slotKey ''Mon 09:00 - 11:00'' = Inr ''Mon 9am - 11am''"
  "slotKey ''Tue 13:00 - 15:00'' = Inr ''Tue 1pm - 3pm''"
  "split_js CHR '' '' ''Mon 09:00 - 11:00'' = [''Mon'', ''09:00'', ''-'', ''11:00'']"
  "split_js CHR '' '' ''Tue 13:00 - 15:00'' = [''Tue'', ''13:00'', ''-'', ''15:00'']"
  by code_simp+

text \<open>
  C4: during aggregation a row is counted as online if and only if its location string
  equals the exact sentinel \<open>Online (ONLINE)\<close>, and every other location increments the
  in-person counter of the row's slot key instead: after aggregating well-formed rows, the
  online count of every key is the number of rows with that key whose location is the
  sentinel, and its in-person count is the number of rows with that key and any other
  location.
\<close>

theorem online_iff_sentinel:
  assumes "length ts = length ls" and "\<forall>t\<in>set ts. 4 \<le> length (split_js CHR '' '' t)"
  shows "\<exists>m. processRows ts ls = Inr m \<and>
           (\<forall>key. obj_get m key =
              (if \<exists>t\<in>set ts. slotKey t = Inr key
               then Some \<lparr>in_person =
                            Fin (int (length (filter (\<lambda>(t, l). slotKey t = Inr key \<and>
                                   l \<noteq> ''Online (ONLINE)'') (zip ts ls)))),
                          online =
                            Fin (int (length (filter (\<lambda>(t, l). slotKey t = Inr key \<and>
                                   l = ''Online (ONLINE)'') (zip ts ls))))\<rparr>
               else None))"
proof -
  let ?rs = "rowsOf ts ls"
  let ?m = "foldl (\<lambda>c (t, l). tally (isOnlineLoc l) (projr (slotKey t)) c) [] ?rs"
  have ok: "list_all (\<lambda>(t, l). \<not> isl (slotKey t)) ?rs"
    by (rule wellFormed_runs [OF assms(2)])
  then have run: "processRows ts ls = Inr ?m"
    by (simp add: processRows_runRows runRows_foldl)
  have "map fst ?rs = ts"
    by (simp add: rowsOf_def comp_def map_nth)
  then have "set (map fst ?rs) = set ts" by simp
  then have fstset: "fst ` set ?rs = set ts" by (simp only: set_map)
  have seen: "(\<exists>(t, l) \<in> set ?rs. slotKey t = Inr key) = (\<exists>t\<in>set ts. slotKey t = Inr key)" for key
  proof -
    have "(\<exists>(t, l) \<in> set ?rs. slotKey t = Inr key) = (\<exists>r \<in> set ?rs. slotKey (fst r) = Inr key)"
      by (simp add: case_prod_unfold)
    also have "\<dots> = (\<exists>t \<in> fst ` set ?rs. slotKey t = Inr key)" by simp
    also have "\<dots> = (\<exists>t\<in>set ts. slotKey t = Inr key)" by (simp only: fstset)
    finally show ?thesis .
  qed
  have counts: "obj_get ?m key =
              (if \<exists>t\<in>set ts. slotKey t = Inr key
               then Some \<lparr>in_person =
                            Fin (int (length (filter (\<lambda>(t, l). slotKey t = Inr key \<and>
                                   l \<noteq> ''Online (ONLINE)'') (zip ts ls)))),
                          online =
                            Fin (int (length (filter (\<lambda>(t, l). slotKey t = Inr key \<and>
                                   l = ''Online (ONLINE)'') (zip ts ls))))\<rparr>
               else None)" for key
    unfolding obj_get_def foldl_tally_counts [OF ok] seen
    by (simp add: rowsOf_zip [OF assms(1)] rowCount_zip)
  show ?thesis
  proof (intro exI conjI allI)
    show "processRows ts ls = Inr ?m" by (rule run)
  next
    fix key
    show "obj_get ?m key =
              (if \<exists>t\<in>set ts. slotKey t = Inr key
               then Some \<lparr>in_person =
                            Fin (int (length (filter (\<lambda>(t, l). slotKey t = Inr key \<and>
                                   l \<noteq> ''Online (ONLINE)'') (zip ts ls)))),
                          online =
                            Fin (int (length (filter (\<lambda>(t, l). slotKey t = Inr key \<and>
                                   l = ''Online (ONLINE)'') (zip ts ls))))\<rparr>
               else None)" by (rule counts)
  qed
qed

theorem online_iff_sentinel_witness:
  "\<exists>m. processRows [''Mon 09:00 - 11:00'', ''Tue 13:00 - 15:00'', ''Mon 09:00 - 11:00'', ''Mon 09:00 - 11:00'']
                    [''Online (ONLINE)'', ''Online (ONLINE)'', ''online (ONLINE)'', ''Room 101''] = Inr m \<and>
       obj_get m ''Mon 9am - 11am'' = Some \<lparr>in_person = Fin 2, online = Fin 1\<rparr> \<and>
       obj_get m ''Tue 1pm - 3pm'' = Some \<lparr>in_person = Fin 0, online = Fin 1\<rparr> \<and>
       obj_get m ''Wed 1pm - 3pm'' = None"
proof -
  let ?ts = "[''Mon 09:00 - 11:00'', ''Tue 13:00 - 15:00'', ''Mon 09:00 - 11:00'', ''Mon 09:00 - 11:00'']"
  let ?ls = "[''Online (ONLINE)'', ''Online (ONLINE)'', ''online (ONLINE)'', ''Room 101'']"
  have len: "length ?ts = length ?ls" by simp
  have wf: "\<forall>t\<in>set ?ts. 4 \<le> length (split_js CHR '' '' t)"
    by (simp add: slotKey_examples)
  from online_iff_sentinel [OF len wf] obtain m where
    run: "processRows ?ts ?ls = Inr m" and
    counts: "\<And>key. obj_get m key =
              (if \<exists>t\<in>set ?ts. slotKey t = Inr key
               then Some \<lparr>in_person =
                            Fin (int (length (filter (\<lambda>(t, l). slotKey t = Inr key \<and>
                                   l \<noteq> ''Online (ONLINE)'') (zip ?ts ?ls)))),
                          online =
                            Fin (int (length (filter (\<lambda>(t, l). slotKey t = Inr key \<and>
                                   l = ''Online (ONLINE)'') (zip ?ts ?ls))))\<rparr>
               else None)"
    by blast
  have "obj_get m ''Mon 9am - 11am'' = Some \<lparr>in_person = Fin 2, online = Fin 1\<rparr>"
    unfolding counts by (simp add: slotKey_examples)
  moreover have "obj_get m ''Tue 1pm - 3pm'' = Some \<lparr>in_person = Fin 0, online = Fin 1\<rparr>"
    unfolding counts by (simp add: slotKey_examples)
  moreover have "obj_get m ''Wed 1pm - 3pm'' = None"
    unfolding counts by (simp add: slotKey_examples)
  ultimately show ?thesis using run by blast
qed

lemma rowCount_mset:
  assumes "mset rs = mset rs'"
  shows "rowCount key b rs = rowCount key b rs'"
proof -
  have "length (filter P rs) = length (filter P rs')" for P :: "string \<times> string option \<Rightarrow> bool"
  proof -
    have "size (mset (filter P rs)) = size (mset (filter P rs'))"
      by (simp only: mset_filter assms)
    then show ?thesis by (simp only: size_mset)
  qed
  then show ?thesis by (simp add: rowCount_def)
qed

lemma runRows_mset:
  assumes "mset rs = mset rs'"
  shows "map_sum id set (runRows rs []) = map_sum id set (runRows rs' [])"
proof -
  let ?f = "\<lambda>c (t, l). tally (isOnlineLoc l) (projr (slotKey t)) c"
  from assms have sets: "set rs = set rs'" by (rule mset_eq_setD)
  then have all: "list_all (\<lambda>(t, l). \<not> isl (slotKey t)) rs = list_all (\<lambda>(t, l). \<not> isl (slotKey t)) rs'"
    by (simp add: list_all_iff)
  show ?thesis
  proof (cases "list_all (\<lambda>(t, l). \<not> isl (slotKey t)) rs")
    case False
    with all show ?thesis by (simp add: runRows_foldl)
  next
    case True
    with all have True': "list_all (\<lambda>(t, l). \<not> isl (slotKey t)) rs'" by simp
    have "map_of (foldl ?f [] rs) = map_of (foldl ?f [] rs')"
      by (rule ext) (simp add: foldl_tally_counts [OF True] foldl_tally_counts [OF True'] sets
          rowCount_mset [OF assms])
    moreover have "distinct (map fst (foldl ?f [] rs))" "distinct (map fst (foldl ?f [] rs'))"
      by (simp_all add: distinct_foldl_tally)
    ultimately have "set (foldl ?f [] rs) = set (foldl ?f [] rs')"
      by (simp add: map_of_inject_set)
    with True True' show ?thesis by (simp add: runRows_foldl)
  qed
qed

lemma rowsOf_permuted:
  assumes "length ts = length ls" and "set p \<subseteq> {0..<length ts}"
  shows "rowsOf (map ((!) ts) p) (map ((!) ls) p) = map (\<lambda>i. (ts ! i, nth_opt ls i)) p"
  using assms by (intro nth_equalityI) (auto simp: rowsOf_def nth_opt_def subset_iff)

text \<open>
  C6: for every pair of equal-length input sequences and every permutation \<open>p\<close> of their
  indices applied to both, aggregation gives the same outcome as on the unpermuted input:
  the same error, or a schedule with the same set of key-to-counts pairs.
\<close>

theorem aggregation_order_irrelevant:
  assumes "length ts = length ls" and "mset p = mset [0..<length ts]"
  shows "map_sum id set (processRows (map ((!) ts) p) (map ((!) ls) p)) =
         map_sum id set (processRows ts ls)"
proof -
  from assms(2) have "set p = set [0..<length ts]"
    by (rule mset_eq_setD)
  then have "set p \<subseteq> {0..<length ts}" by simp
  then have rows: "rowsOf (map ((!) ts) p) (map ((!) ls) p) = map (\<lambda>i. (ts ! i, nth_opt ls i)) p"
    by (rule rowsOf_permuted [OF assms(1)])
  have "mset (map (\<lambda>i. (ts ! i, nth_opt ls i)) p) =
      image_mset (\<lambda>i. (ts ! i, nth_opt ls i)) (mset p)" by simp
  also have "\<dots> = image_mset (\<lambda>i. (ts ! i, nth_opt ls i)) (mset [0..<length ts])"
    by (simp only: assms(2))
  also have "\<dots> = mset (rowsOf ts ls)" by (simp only: rowsOf_def mset_map)
  finally have "map_sum id set (runRows (map (\<lambda>i. (ts ! i, nth_opt ls i)) p) []) =
      map_sum id set (runRows (rowsOf ts ls) [])"
    by (rule runRows_mset)
  then show ?thesis by (simp only: processRows_runRows rows)
qed

theorem aggregation_order_irrelevant_witness:
  "map_sum id set (processRows [''Tue 13:00 - 15:00'', ''Mon 09:00 - 11:00'', ''Mon 09:00 - 11:00'']
                               [''Room 101'', ''Online (ONLINE)'', ''Room 202'']) =
   map_sum id set (processRows [''Mon 09:00 - 11:00'', ''Mon 09:00 - 11:00'', ''Tue 13:00 - 15:00'']
                               [''Online (ONLINE)'', ''Room 202'', ''Room 101'']) \<and>
   processRows [''Tue 13:00 - 15:00'', ''Mon 09:00 - 11:00'', ''Mon 09:00 - 11:00'']
               [''Room 101'', ''Online (ONLINE)'', ''Room 202''] =
     Inr [(''Tue 1pm - 3pm'', \<lparr>in_person = Fin 1, online = Fin 0\<rparr>),
          (''Mon 9am - 11am'', \<lparr>in_person = Fin 1, online = Fin 1\<rparr>)]"
proof -
  have p: "mset [2, 0, 1] = mset [0..<length [''Mon 09:00 - 11:00'', ''Mon 09:00 - 11:00'', ''Tue 13:00 - 15:00'']]"
    by (simp add: upt_rec_numeral)
  have v: "processRows [''Tue 13:00 - 15:00'', ''Mon 09:00 - 11:00'', ''Mon 09:00 - 11:00'']
               [''Room 101'', ''Online (ONLINE)'', ''Room 202''] =
     Inr [(''Tue 1pm - 3pm'', \<lparr>in_person = Fin 1, online = Fin 0\<rparr>),
          (''Mon 9am - 11am'', \<lparr>in_person = Fin 1, online = Fin 1\<rparr>)]"
    by code_simp
  show ?thesis
    using aggregation_order_irrelevant [where
      ts = "[''Mon 09:00 - 11:00'', ''Mon 09:00 - 11:00'', ''Tue 13:00 - 15:00'']" and
      ls = "[''Online (ONLINE)'', ''Room 202'', ''Room 101'']" and p = "[2, 0, 1]"] p v
    by simp
qed






subsection \<open>Slot orderer\<close>

text \<open>
  On keys whose weekday is one of the five and whose start label parses to an integer
  hour, the comparator is the lexicographic order of \<open>rank\<close>, and the sort is the
  library's stable \<open>sort_key\<close>.
\<close>

lemma indexOf_ge: "- 1 \<le> indexOf xs x"
  by (induction xs) (auto simp: Let_def)

lemma indexOf_mem: "x \<in> set xs \<longleftrightarrow> 0 \<le> indexOf xs x"
  using indexOf_ge [of _ x] by (induction xs) (auto simp: Let_def)


lemma indexOf_inj:
  "x \<in> set xs \<Longrightarrow> indexOf xs x = indexOf xs y \<Longrightarrow> x = y"
proof (induction xs)
  case Nil
  then show ?case by simp
next
  case (Cons z zs)
  show ?case
  proof (cases "z = x")
    case True
    with Cons.prems indexOf_ge [of zs y] show ?thesis
      by (auto simp: Let_def split: if_splits)
  next
    case False
    with Cons.prems have x: "x \<in> set zs" by simp
    then have "0 \<le> indexOf zs x" by (simp add: indexOf_mem)
    with False Cons.prems(2) have "indexOf zs x = indexOf zs y"
      by (auto simp: Let_def split: if_splits)
    with Cons.IH x show ?thesis by simp
  qed
qed

lemma compareKeys_days_differ:
  "weekdayOf a \<noteq> weekdayOf b \<Longrightarrow>
   compareKeys a b = Inr (Fin (indexOf weekdaysOrder (weekdayOf a) - indexOf weekdaysOrder (weekdayOf b)))"
  by (simp add: compareKeys_def weekdayOf_def Let_def)

lemma compareKeys_same_day:
  "weekdayOf a = weekdayOf b \<Longrightarrow> hasStart a \<Longrightarrow> hasStart b \<Longrightarrow>
   compareKeys a b = Inr (js_sub (startHour a) (startHour b))"
  by (simp add: compareKeys_def weekdayOf_def hasStart_def startHour_def Let_def nth_opt_def)


lemma compareKeys_rank:
  assumes "orderable a" and "orderable b"
  shows "\<exists>v. compareKeys a b = Inr v \<and> (notAfter v \<longleftrightarrow> rank a \<le> rank b)"
proof (cases "weekdayOf a = weekdayOf b")
  case True
  from assms obtain ha hb where h: "startHour a = Fin ha" "startHour b = Fin hb"
    by (auto simp: orderable_def is_Fin_def)
  with True assms show ?thesis
    by (simp add: compareKeys_same_day orderable_def js_sub_def notAfter_def rank_def)
next
  case False
  from assms have mem: "weekdayOf a \<in> set weekdaysOrder" by (simp add: orderable_def)
  define ia where "ia = indexOf weekdaysOrder (weekdayOf a)"
  define ib where "ib = indexOf weekdaysOrder (weekdayOf b)"
  have ne: "ia \<noteq> ib"
  proof
    assume "ia = ib"
    then have "indexOf weekdaysOrder (weekdayOf a) = indexOf weekdaysOrder (weekdayOf b)"
      by (simp add: ia_def ib_def)
    from indexOf_inj [OF mem this] False show False by simp
  qed
  have cmp: "compareKeys a b = Inr (Fin (ia - ib))"
    using False by (simp add: compareKeys_days_differ ia_def ib_def)
  have ra: "rank a = (ia, the_int (startHour a))" and rb: "rank b = (ib, the_int (startHour b))"
    by (simp_all add: rank_def ia_def ib_def)
  have r: "rank a \<le> rank b \<longleftrightarrow> ia < ib"
    unfolding ra rb using ne by (auto simp: less_eq_prod_def)
  have "notAfter (Fin (ia - ib)) \<longleftrightarrow> ia < ib"
    using ne by (auto simp: notAfter_def)
  with cmp r show ?thesis by simp
qed

lemma insertBy_insort_key:
  assumes "orderable x" and "\<forall>y\<in>set ys. orderable y"
  shows "insertBy compareKeys x ys = Inr (insort_key rank x ys)"
  using assms(2)
proof (induction ys)
  case Nil
  then show ?case by simp
next
  case (Cons y ys)
  from compareKeys_rank [OF assms(1), of y] Cons.prems
  obtain v where v: "compareKeys x y = Inr v" "notAfter v \<longleftrightarrow> rank x \<le> rank y"
    by auto
  with Cons show ?case by simp
qed

lemma array_sort_sort_key:
  assumes "\<forall>k\<in>set ks. orderable k"
  shows "array_sort compareKeys ks = Inr (sort_key rank ks)"
  using assms
proof (induction ks)
  case Nil
  then show ?case by simp
next
  case (Cons k ks)
  then have "array_sort compareKeys ks = Inr (sort_key rank ks)" by simp
  moreover have "insertBy compareKeys k (sort_key rank ks) = Inr (insort_key rank k (sort_key rank ks))"
    using Cons.prems by (intro insertBy_insort_key) simp_all
  ultimately show ?case by simp
qed

lemma obj_set_fresh: "key \<notin> fst ` set obj \<Longrightarrow> obj_set obj key v = obj @ [(key, v)]"
  by (induction obj key v rule: obj_set.induct) auto

lemma rebuild_foldl:
  assumes "distinct keys" and "set keys \<subseteq> fst ` set c" and "set keys \<inter> fst ` set acc = {}"
  shows "foldl (\<lambda>ordered key. case obj_get c key of Some v \<Rightarrow> obj_set ordered key v | None \<Rightarrow> ordered)
           acc keys = acc @ map (\<lambda>key. (key, the (map_of c key))) keys"
  using assms
proof (induction keys arbitrary: acc)
  case Nil
  then show ?case by simp
next
  case (Cons k keys)
  from Cons.prems(2) obtain v where v: "map_of c k = Some v"
    by (cases "map_of c k") (auto simp: map_of_eq_None_iff)
  from Cons.prems(3) have fresh: "k \<notin> fst ` set acc" by auto
  have step: "(case obj_get c k of Some v \<Rightarrow> obj_set acc k v | None \<Rightarrow> acc) = acc @ [(k, v)]"
    using v fresh by (simp add: obj_get_def obj_set_fresh)
  have "set keys \<inter> fst ` set (acc @ [(k, v)]) = {}"
    using Cons.prems(1,3) by auto
  with Cons.IH [of "acc @ [(k, v)]"] Cons.prems(1,2) step v show ?case by simp
qed

lemma rebuild_entries:
  assumes "distinct (map fst c)"
  shows "map (\<lambda>key. (key, the (map_of c key))) (map fst c) = c"
proof -
  have "(fst e, the (map_of c (fst e))) = e" if "e \<in> set c" for e
  proof -
    obtain k v where e: "e = (k, v)" by (cases e)
    with that assms have "map_of c k = Some v" by simp
    with e show ?thesis by simp
  qed
  then have "map ((\<lambda>key. (key, the (map_of c key))) \<circ> fst) c = map id c"
    by (intro map_cong) simp_all
  then show ?thesis by simp
qed

lemma orderCombinations_orderable:
  assumes "distinct (map fst c)" and "list_all orderable (map fst c)"
  shows "orderCombinations c =
           Inr (map (\<lambda>key. (key, the (map_of c key))) (sort_key rank (map fst c)))"
proof -
  from assms(2) have "array_sort compareKeys (map fst c) = Inr (sort_key rank (map fst c))"
    by (intro array_sort_sort_key) (simp add: list_all_iff)
  moreover have "foldl (\<lambda>ordered key. case obj_get c key of Some v \<Rightarrow> obj_set ordered key v | None \<Rightarrow> ordered)
           [] (sort_key rank (map fst c)) = [] @ map (\<lambda>key. (key, the (map_of c key))) (sort_key rank (map fst c))"
    using assms(1) by (intro rebuild_foldl) simp_all
  ultimately show ?thesis by (simp add: orderCombinations_def)
qed

lemma orderable_examples:
  "orderable ''Tue 1pm - 3pm''" "orderable ''Mon 9am - 11am''" "orderable ''Mon 9am - 10am''"
  "rank ''Tue 1pm - 3pm'' = (1, 13)" "rank ''Mon 9am - 11am'' = (0, 9)" "rank ''Mon 9am - 10am'' = (0, 9)"
  by code_simp+

text \<open>
  C2: \<open>orderCombinations\<close> returns a mapping with exactly the entries of its input,
  enumerated in ascending order of the weekday's position in \<open>[Mon, Tue, Wed, Thu, Fri]\<close>
  and then of the hour parsed from the start label, keys with equal weekday and start
  hour keeping their input order; in particular the slots
  \<open>["Wed 9am - 10am", "Mon 2pm - 4pm", "Mon 10am - 12pm"]\<close> enumerate as
  \<open>["Mon 10am - 12pm", "Mon 2pm - 4pm", "Wed 9am - 10am"]\<close>. The input is a schedule:
  distinct keys, each with one of the five weekdays and a start label with an integer hour.
\<close>

theorem orderCombinations_sorted:
  "(distinct (map fst combinations) \<and> list_all orderable (map fst combinations) \<longrightarrow>
      (\<exists>ordered. orderCombinations combinations = Inr ordered \<and>
         mset ordered = mset combinations \<and>
         sorted (map rank (map fst ordered)) \<and>
         (\<forall>r. filter (\<lambda>key. rank key = r) (map fst ordered) =
              filter (\<lambda>key. rank key = r) (map fst combinations)))) \<and>
   orderCombinations [(''Wed 9am - 10am'', v1), (''Mon 2pm - 4pm'', v2), (''Mon 10am - 12pm'', v3)] =
     Inr [(''Mon 10am - 12pm'', v3), (''Mon 2pm - 4pm'', v2), (''Wed 9am - 10am'', v1)]"
proof (rule conjI)
  show "distinct (map fst combinations) \<and> list_all orderable (map fst combinations) \<longrightarrow>
      (\<exists>ordered. orderCombinations combinations = Inr ordered \<and>
         mset ordered = mset combinations \<and>
         sorted (map rank (map fst ordered)) \<and>
         (\<forall>r. filter (\<lambda>key. rank key = r) (map fst ordered) =
              filter (\<lambda>key. rank key = r) (map fst combinations)))"
  proof
    assume a: "distinct (map fst combinations) \<and> list_all orderable (map fst combinations)"
    let ?g = "\<lambda>key. (key, the (map_of combinations key))"
    let ?ks = "sort_key rank (map fst combinations)"
    let ?ordered = "map ?g ?ks"
    from a have run: "orderCombinations combinations = Inr ?ordered"
      by (simp add: orderCombinations_orderable)
    have keys: "map fst ?ordered = ?ks" by (simp add: comp_def)
    have "mset ?ordered = image_mset ?g (mset ?ks)" by simp
    also have "\<dots> = image_mset ?g (mset (map fst combinations))" by simp
    also have "\<dots> = mset (map ?g (map fst combinations))" by (simp only: mset_map)
    also have "\<dots> = mset combinations"
      using a by (simp only: rebuild_entries)
    finally have perm: "mset ?ordered = mset combinations" .
    have srt: "sorted (map rank (map fst ?ordered))"
      unfolding keys by (rule sorted_sort_key)
    have stable: "filter (\<lambda>key. rank key = r) (map fst ?ordered) =
              filter (\<lambda>key. rank key = r) (map fst combinations)" for r
      unfolding keys by (rule sort_key_stable)
    from run perm srt stable
    show "\<exists>ordered. orderCombinations combinations = Inr ordered \<and>
         mset ordered = mset combinations \<and>
         sorted (map rank (map fst ordered)) \<and>
         (\<forall>r. filter (\<lambda>key. rank key = r) (map fst ordered) =
              filter (\<lambda>key. rank key = r) (map fst combinations))"
      by blast
  qed
next
  show "orderCombinations [(''Wed 9am - 10am'', v1), (''Mon 2pm - 4pm'', v2), (''Mon 10am - 12pm'', v3)] =
     Inr [(''Mon 10am - 12pm'', v3), (''Mon 2pm - 4pm'', v2), (''Wed 9am - 10am'', v1)]"
    by code_simp
qed

theorem orderCombinations_sorted_witness:
  "orderCombinations [(''Tue 1pm - 3pm'', \<lparr>in_person = Fin 1, online = Fin 0\<rparr>),
                      (''Mon 9am - 11am'', \<lparr>in_person = Fin 2, online = Fin 0\<rparr>),
                      (''Mon 9am - 10am'', \<lparr>in_person = Fin 0, online = Fin 3\<rparr>)] =
     Inr [(''Mon 9am - 11am'', \<lparr>in_person = Fin 2, online = Fin 0\<rparr>),
          (''Mon 9am - 10am'', \<lparr>in_person = Fin 0, online = Fin 3\<rparr>),
          (''Tue 1pm - 3pm'', \<lparr>in_person = Fin 1, online = Fin 0\<rparr>)] \<and>
   (\<exists>ordered. orderCombinations [(''Tue 1pm - 3pm'', \<lparr>in_person = Fin 1, online = Fin 0\<rparr>),
                      (''Mon 9am - 11am'', \<lparr>in_person = Fin 2, online = Fin 0\<rparr>),
                      (''Mon 9am - 10am'', \<lparr>in_person = Fin 0, online = Fin 3\<rparr>)] = Inr ordered \<and>
      sorted (map rank (map fst ordered)) \<and>
      filter (\<lambda>key. rank key = (0, 9)) (map fst ordered) = [''Mon 9am - 11am'', ''Mon 9am - 10am''])"
proof -
  let ?c = "[(''Tue 1pm - 3pm'', \<lparr>in_person = Fin 1, online = Fin 0\<rparr>),
                      (''Mon 9am - 11am'', \<lparr>in_person = Fin 2, online = Fin 0\<rparr>),
                      (''Mon 9am - 10am'', \<lparr>in_person = Fin 0, online = Fin 3\<rparr>)]"
  have v: "orderCombinations ?c =
     Inr [(''Mon 9am - 11am'', \<lparr>in_person = Fin 2, online = Fin 0\<rparr>),
          (''Mon 9am - 10am'', \<lparr>in_person = Fin 0, online = Fin 3\<rparr>),
          (''Tue 1pm - 3pm'', \<lparr>in_person = Fin 1, online = Fin 0\<rparr>)]"
    by code_simp
  have h: "distinct (map fst ?c) \<and> list_all orderable (map fst ?c)"
    by (simp add: orderable_examples)
  from orderCombinations_sorted [of ?c] h obtain ordered where
    o: "orderCombinations ?c = Inr ordered" "sorted (map rank (map fst ordered))"
      "\<And>r. filter (\<lambda>key. rank key = r) (map fst ordered) = filter (\<lambda>key. rank key = r) (map fst ?c)"
    by blast
  have "filter (\<lambda>key. rank key = (0, 9)) (map fst ordered) = [''Mon 9am - 11am'', ''Mon 9am - 10am'']"
    unfolding o(3) by (simp add: orderable_examples)
  with o(1,2) v show ?thesis by blast
qed














end
